theory Spec2Isabelle
  imports Main "HOL-Library.Word"
begin

section \<open>RISC OS alphabets as single-byte codecs (rocodecs.py)\<close>

text \<open>
  The embedding follows the module as Python 3 runs it (the \<open>else\<close> branch of the
  test on \<open>sys.version_info.major\<close>): a \<open>bytes\<close> value enumerates as integers
  0..255 and a text enumerates as one-character strings.

  A character of a text is its scalar value. An entry of a decode table is a string
  object (type \<open>ustr\<close> below), because the source compares entries with its literal for
  U+FFFD by \<open>is\<close>, the identity of objects, and not by their value.
\<close>

subsection \<open>Values, errors and the builtins the module calls\<close>

type_synonym uchar = nat
type_synonym byte = "8 word"

definition FFFD :: uchar where
  "FFFD = 0xFFFD"

text \<open>
  A one-character string object. The tests \<open>nc is u'\ufffd'\<close> of \<open>_decode_strict\<close> and
  \<open>_decode_ignore\<close> hold for one object only, the one of the module's own literal:
  \<open>FFFD_literal\<close>. The tables of changes in the module are written with the same literal,
  and equal constants of one module are one object, so they hold that object wherever they
  say \<open>u'\uFFFD'\<close>. Every other string object is \<open>Str c\<close>, known by its scalar value
  \<open>c\<close>: the characters that a codec of the library decodes are such objects, also when
  their value is U+FFFD, and so are the strings of a table that a caller writes elsewhere.
  As dictionary keys and in a text, objects count by their value, \<open>scalar\<close>.
\<close>

datatype ustr = FFFD_literal | Str uchar

fun scalar :: "ustr \<Rightarrow> uchar" where
  "scalar FFFD_literal = FFFD"
| "scalar (Str c) = c"

text \<open>What an encoder function hands to \<open>bytearray\<close>: an integer, or a string.\<close>

datatype pyval = PyInt int | PyStr "uchar list"

text \<open>
  The messages the source formats:
  \<open>"Cannot decode character {!r} from encoding '{}'".format(c, self.name)\<close> and
  \<open>"Cannot encode character {!r} with encoding '{}'".format(c, self.name)\<close>,
  kept as the template's two arguments.
\<close>

datatype message = Cannot_decode nat string | Cannot_encode uchar string

datatype error =
    TypeError
  | ValueError
  | KeyError
  | IndexError
  | UnicodeDecodeError_raised "message list"
  | UnicodeEncodeError_raised "message list"

text \<open>
  The builtin exception classes \<open>UnicodeDecodeError\<close> and \<open>UnicodeEncodeError\<close>
  take exactly five arguments (encoding, object, start, end, reason). A call with any
  other number of arguments does not build the exception: the call itself raises
  \<open>TypeError\<close>, and that is the error the caller sees.
\<close>

definition UnicodeDecodeError :: "message list \<Rightarrow> error" where
  "UnicodeDecodeError args =
     (if length args = 5 then UnicodeDecodeError_raised args else TypeError)"

definition UnicodeEncodeError :: "message list \<Rightarrow> error" where
  "UnicodeEncodeError args =
     (if length args = 5 then UnicodeEncodeError_raised args else TypeError)"

text \<open>
  \<open>bytearray(iterable)\<close> of Python 3 draws the items one by one. An item that raised
  ends the call with that error; an integer outside \<open>range(0, 256)\<close> is a
  \<open>ValueError\<close>; a string is a \<open>TypeError\<close> (it cannot be interpreted as an
  integer). The generator expression is the list of its items' outcomes, in order.
\<close>

fun bytearray :: "(error + pyval) list \<Rightarrow> error + byte list" where
  "bytearray [] = Inr []"
| "bytearray (Inl e # rest) = Inl e"
| "bytearray (Inr (PyStr s) # rest) = Inl TypeError"
| "bytearray (Inr (PyInt i) # rest) =
     (if 0 \<le> i \<and> i < 256
      then (case bytearray rest of Inl e \<Rightarrow> Inl e | Inr bs \<Rightarrow> Inr (word_of_int i # bs))
      else Inl ValueError)"

text \<open>\<open>''.join(iterable)\<close>: the strings of the items, concatenated; an item that raised
  ends the call.\<close>

fun join :: "(error + uchar list) list \<Rightarrow> error + uchar list" where
  "join [] = Inr []"
| "join (Inl e # rest) = Inl e"
| "join (Inr s # rest) =
     (case join rest of Inl e \<Rightarrow> Inl e | Inr t \<Rightarrow> Inr (s @ t))"

subsection \<open>RISCOSAlphabet.__init__: the decode table and the encode table\<close>

text \<open>
  A dictionary of changes is the list of its items in iteration order (byte value, character).
  Byte values are natural numbers, as the module's tables have them: Python's negative
  list indices are outside the model.
\<close>

type_synonym change = "(nat \<times> ustr) list"

text \<open>\<open>self.decode_table[codepoint] = value\<close>: a list store, \<open>IndexError\<close> out of range.\<close>

definition store :: "ustr list \<Rightarrow> nat \<Rightarrow> ustr \<Rightarrow> error + ustr list" where
  "store table codepoint v =
     (if codepoint < length table then Inr (table[codepoint := v]) else Inl IndexError)"

text \<open>\<open>for codepoint, value in change.items(): self.decode_table[codepoint] = value\<close>\<close>

fun apply_change :: "ustr list \<Rightarrow> change \<Rightarrow> error + ustr list" where
  "apply_change table [] = Inr table"
| "apply_change table ((codepoint, v) # items) =
     (case store table codepoint v of
        Inl e \<Rightarrow> Inl e
      | Inr table' \<Rightarrow> apply_change table' items)"

text \<open>\<open>for change in changes: ...\<close>\<close>

fun apply_changes :: "ustr list \<Rightarrow> change list \<Rightarrow> error + ustr list" where
  "apply_changes table [] = Inr table"
| "apply_changes table (change # changes) =
     (case apply_change table change of
        Inl e \<Rightarrow> Inl e
      | Inr table' \<Rightarrow> apply_changes table' changes)"

text \<open>\<open>{char: (index) for index, char in enumerate(self.decode_table)}\<close>: every entry of
  the decode table is inserted, in ascending index order, a later index replacing an
  earlier one under the same character. The keys of a dictionary are equal when their
  values are.\<close>

definition make_encode_table :: "ustr list \<Rightarrow> (uchar \<rightharpoonup> nat)" where
  "make_encode_table table =
     foldl (\<lambda>m (index, char). m(scalar char \<mapsto> index)) Map.empty (enumerate 0 table)"

record RISCOSAlphabet =
  alphabet :: int
  name :: string
  base_encoding :: string
  decode_table :: "ustr list"
  encode_table :: "uchar \<rightharpoonup> nat"

text \<open>\<open>changes = changes or [{}]\<close>: \<open>None\<close> and the empty list both become one empty
  dictionary.\<close>

definition changes_or :: "change list option \<Rightarrow> change list" where
  "changes_or changes =
     (case changes of None \<Rightarrow> [[]] | Some [] \<Rightarrow> [[]] | Some cs \<Rightarrow> cs)"

text \<open>
  The base table \<open>list(self.base_array.decode(base_encoding, 'replace'))\<close> comes from the
  codecs of the Python library: \<open>base_decode\<close> stands for them, giving for an encoding
  name the characters that the bytes 0..255 decode to. The list holds them as new string
  objects, none of which is the module's literal.
\<close>

definition RISCOSAlphabet_init ::
  "(string \<Rightarrow> uchar list) \<Rightarrow> int \<Rightarrow> string \<Rightarrow> string \<Rightarrow> change list option
     \<Rightarrow> error + RISCOSAlphabet" where
  "RISCOSAlphabet_init base_decode alphabet_number nm base changes =
     (case apply_changes (map Str (base_decode base)) (changes_or changes) of
        Inl e \<Rightarrow> Inl e
      | Inr table \<Rightarrow>
          Inr \<lparr> alphabet = alphabet_number, name = nm, base_encoding = base,
                decode_table = table, encode_table = make_encode_table table \<rparr>)"

subsection \<open>encode\<close>

definition encode_strict :: "RISCOSAlphabet \<Rightarrow> uchar \<Rightarrow> error + pyval" where
  "encode_strict self c =
     (case encode_table self c of
        None \<Rightarrow> Inl (UnicodeEncodeError [Cannot_encode c (name self)])
      | Some nc \<Rightarrow> Inr (PyInt (int nc)))"

text \<open>\<open>self.encode_table.get(c, '')\<close>\<close>

definition encode_ignore :: "RISCOSAlphabet \<Rightarrow> uchar \<Rightarrow> error + pyval" where
  "encode_ignore self c =
     (case encode_table self c of None \<Rightarrow> Inr (PyStr []) | Some nc \<Rightarrow> Inr (PyInt (int nc)))"

text \<open>\<open>self.encode_table.get(c, '?')\<close>\<close>

definition encode_replace :: "RISCOSAlphabet \<Rightarrow> uchar \<Rightarrow> error + pyval" where
  "encode_replace self c =
     (case encode_table self c of None \<Rightarrow> Inr (PyStr [0x3F]) | Some nc \<Rightarrow> Inr (PyInt (int nc)))"

definition encode_readers :: "RISCOSAlphabet \<Rightarrow> (string \<rightharpoonup> (uchar \<Rightarrow> error + pyval))" where
  "encode_readers self =
     [''strict'' \<mapsto> encode_strict self,
      ''ignore'' \<mapsto> encode_ignore self,
      ''replace'' \<mapsto> encode_replace self]"

text \<open>\<open>def encode(self, text, errors='replace')\<close>: \<open>None\<close> is the call without the
  argument.\<close>

definition encode ::
  "RISCOSAlphabet \<Rightarrow> uchar list \<Rightarrow> string option \<Rightarrow> error + (byte list \<times> nat)" where
  "encode self text errors =
     (case encode_readers self (case errors of None \<Rightarrow> ''replace'' | Some p \<Rightarrow> p) of
        None \<Rightarrow> Inl KeyError
      | Some encoder \<Rightarrow>
          (case bytearray (map encoder text) of
             Inl e \<Rightarrow> Inl e
           | Inr bs \<Rightarrow> Inr (bs, length text)))"

subsection \<open>decode\<close>

text \<open>\<open>self.decode_table[c]\<close>: a list read, \<open>IndexError\<close> out of range. What a decoder
  function returns goes into the text by its value.\<close>

definition table_get :: "ustr list \<Rightarrow> nat \<Rightarrow> error + ustr" where
  "table_get table c = (if c < length table then Inr (table ! c) else Inl IndexError)"

definition decode_strict :: "RISCOSAlphabet \<Rightarrow> nat \<Rightarrow> error + uchar list" where
  "decode_strict self c =
     (case table_get (decode_table self) c of
        Inl e \<Rightarrow> Inl e
      | Inr nc \<Rightarrow>
          if nc = FFFD_literal then Inl (UnicodeDecodeError [Cannot_decode c (name self)])
          else Inr [scalar nc])"

definition decode_ignore :: "RISCOSAlphabet \<Rightarrow> nat \<Rightarrow> error + uchar list" where
  "decode_ignore self c =
     (case table_get (decode_table self) c of
        Inl e \<Rightarrow> Inl e
      | Inr nc \<Rightarrow> if nc = FFFD_literal then Inr [] else Inr [scalar nc])"

definition decode_replace :: "RISCOSAlphabet \<Rightarrow> nat \<Rightarrow> error + uchar list" where
  "decode_replace self c =
     (case table_get (decode_table self) c of
        Inl e \<Rightarrow> Inl e
      | Inr nc \<Rightarrow> Inr [scalar nc])"

definition decode_readers :: "RISCOSAlphabet \<Rightarrow> (string \<rightharpoonup> (nat \<Rightarrow> error + uchar list))" where
  "decode_readers self =
     [''strict'' \<mapsto> decode_strict self,
      ''ignore'' \<mapsto> decode_ignore self,
      ''replace'' \<mapsto> decode_replace self]"

text \<open>\<open>def decode(self, binary, errors='strict')\<close>\<close>

definition decode ::
  "RISCOSAlphabet \<Rightarrow> byte list \<Rightarrow> string option \<Rightarrow> error + (uchar list \<times> nat)" where
  "decode self binary errors =
     (case decode_readers self (case errors of None \<Rightarrow> ''strict'' | Some p \<Rightarrow> p) of
        None \<Rightarrow> Inl KeyError
      | Some decoder \<Rightarrow>
          (case join (map (\<lambda>x. decoder (unat x)) binary) of
             Inl e \<Rightarrow> Inl e
           | Inr s \<Rightarrow> Inr (s, length binary)))"

subsection \<open>The tables of changes\<close>

definition c1_changes :: change where
  "c1_changes =
     [(0x80, Str 0x20AC), (0x81, Str 0x0174), (0x82, Str 0x0175), (0x83, Str 0x25F0),
      (0x84, FFFD_literal), (0x85, Str 0x0176), (0x86, Str 0x0177), (0x87, FFFD_literal),
      (0x88, Str 0x21E6), (0x89, Str 0x21E8), (0x8A, Str 0x21E9), (0x8B, Str 0x21E7),
      (0x8C, Str 0x2026), (0x8D, Str 0x2122), (0x8E, Str 0x2030), (0x8F, Str 0x2022),
      (0x90, Str 0x2018), (0x91, Str 0x2019), (0x92, Str 0x2039), (0x93, Str 0x203A),
      (0x94, Str 0x201C), (0x95, Str 0x201D), (0x96, Str 0x201E), (0x97, Str 0x2013),
      (0x98, Str 0x2014), (0x99, Str 0x2212), (0x9A, Str 0x0152), (0x9B, Str 0x0153),
      (0x9C, Str 0x2020), (0x9D, Str 0x2021), (0x9E, Str 0xFB01), (0x9F, Str 0xFB02)]"

definition welsh_changes :: change where
  "welsh_changes =
     [(0xA8, Str 0x1E80), (0xAA, Str 0x1E82), (0xAC, Str 0x1EF2), (0xAF, Str 0x0178),
      (0xB8, Str 0x1E81), (0xBA, Str 0x1E83), (0xBC, Str 0x1EF3), (0xBD, Str 0x1E84),
      (0xBE, Str 0x1E85), (0xD0, Str 0x0174), (0xDE, Str 0x0176), (0xF1, Str 0x0175),
      (0xFE, Str 0x0177)]"

definition iso8859_3_changes :: change where
  "iso8859_3_changes =
     [(0xA5, Str 0x00A5), (0xAE, Str 0x00AE), (0xBE, Str 0x00BE), (0xC3, Str 0x00C3),
      (0xD0, Str 0x00D0), (0xE3, Str 0x00E3), (0xF0, Str 0x00F0)]"

definition iso8859_6_changes :: change where
  "iso8859_6_changes =
     [(0xA1, FFFD_literal), (0xA2, FFFD_literal), (0xA3, FFFD_literal), (0xA5, FFFD_literal),
      (0xA6, FFFD_literal), (0xA7, FFFD_literal), (0xA8, FFFD_literal), (0xA9, FFFD_literal),
      (0xAA, FFFD_literal), (0xAB, FFFD_literal), (0xAE, FFFD_literal), (0xAF, FFFD_literal),
      (0xB0, FFFD_literal), (0xB1, FFFD_literal), (0xB2, FFFD_literal), (0xB3, FFFD_literal),
      (0xB4, FFFD_literal), (0xB5, FFFD_literal), (0xB6, FFFD_literal), (0xB7, FFFD_literal),
      (0xB8, FFFD_literal), (0xB9, FFFD_literal), (0xBA, FFFD_literal), (0xBC, FFFD_literal),
      (0xBD, FFFD_literal), (0xBE, FFFD_literal), (0xC0, FFFD_literal), (0xDB, FFFD_literal),
      (0xDC, FFFD_literal), (0xDD, FFFD_literal), (0xDE, FFFD_literal), (0xDF, FFFD_literal),
      (0xF3, FFFD_literal), (0xF4, FFFD_literal), (0xF5, FFFD_literal), (0xF6, FFFD_literal),
      (0xF7, FFFD_literal), (0xF8, FFFD_literal), (0xF9, FFFD_literal), (0xFA, FFFD_literal),
      (0xFB, FFFD_literal), (0xFC, FFFD_literal), (0xFD, FFFD_literal), (0xFE, FFFD_literal),
      (0xFF, FFFD_literal)]"

definition iso8859_7_changes :: change where
  "iso8859_7_changes =
     [(0xAA, FFFD_literal), (0xAE, FFFD_literal), (0xD2, FFFD_literal), (0xFF, FFFD_literal)]"

definition iso8859_8_changes :: change where
  "iso8859_8_changes =
     [(0xA1, FFFD_literal), (0xBF, FFFD_literal), (0xC0, FFFD_literal), (0xC1, FFFD_literal),
      (0xC2, FFFD_literal), (0xC3, FFFD_literal), (0xC4, FFFD_literal), (0xC5, FFFD_literal),
      (0xC6, FFFD_literal), (0xC7, FFFD_literal), (0xC8, FFFD_literal), (0xC9, FFFD_literal),
      (0xCA, FFFD_literal), (0xCB, FFFD_literal), (0xCC, FFFD_literal), (0xCD, FFFD_literal),
      (0xCE, FFFD_literal), (0xCF, FFFD_literal), (0xD0, FFFD_literal), (0xD1, FFFD_literal),
      (0xD2, FFFD_literal), (0xD3, FFFD_literal), (0xD4, FFFD_literal), (0xD5, FFFD_literal),
      (0xD6, FFFD_literal), (0xD7, FFFD_literal), (0xD8, FFFD_literal), (0xD9, FFFD_literal),
      (0xDA, FFFD_literal), (0xDB, FFFD_literal), (0xDC, FFFD_literal), (0xDD, FFFD_literal),
      (0xDE, FFFD_literal), (0xFB, FFFD_literal), (0xFC, FFFD_literal), (0xFF, FFFD_literal)]"

subsection \<open>The registered alphabets and the search function\<close>

text \<open>
  \<open>self.codec\<close> of a table alphabet is \<open>codecs.CodecInfo(self.encode, self.decode, name=name)\<close>:
  it holds the two methods bound to that object, so it is given by the object.
  \<open>RISCOSUTF8\<close> builds no table; its codec is \<open>codecs.lookup('utf-8')\<close> of the library.
\<close>

datatype codec = CodecInfo RISCOSAlphabet | Lookup string

datatype encoding = Table RISCOSAlphabet | UTF8 int string

fun alphabet_of :: "encoding \<Rightarrow> int" where
  "alphabet_of (Table self) = alphabet self"
| "alphabet_of (UTF8 a n) = a"

fun name_of :: "encoding \<Rightarrow> string" where
  "name_of (Table self) = name self"
| "name_of (UTF8 a n) = n"

fun codec_of :: "encoding \<Rightarrow> codec" where
  "codec_of (Table self) = CodecInfo self"
| "codec_of (UTF8 a n) = Lookup ''utf-8''"

definition new_RISCOSAlphabet ::
  "(string \<Rightarrow> uchar list) \<Rightarrow> int \<Rightarrow> string \<Rightarrow> string \<Rightarrow> change list option
     \<Rightarrow> error + encoding" where
  "new_RISCOSAlphabet base_decode alphabet_number nm base changes =
     (case RISCOSAlphabet_init base_decode alphabet_number nm base changes of
        Inl e \<Rightarrow> Inl e
      | Inr self \<Rightarrow> Inr (Table self))"

definition new_RISCOSUTF8 :: "int \<Rightarrow> string \<Rightarrow> error + encoding" where
  "new_RISCOSUTF8 alphabet_number nm = Inr (UTF8 alphabet_number nm)"

text \<open>A list display evaluates its items from left to right; the first that raises ends it.\<close>

fun list_display :: "(error + 'a) list \<Rightarrow> error + 'a list" where
  "list_display [] = Inr []"
| "list_display (Inl e # rest) = Inl e"
| "list_display (Inr x # rest) =
     (case list_display rest of Inl e \<Rightarrow> Inl e | Inr xs \<Rightarrow> Inr (x # xs))"

definition riscos_alphabets :: "(string \<Rightarrow> uchar list) \<Rightarrow> error + encoding list" where
  "riscos_alphabets base_decode =
     list_display
     [new_RISCOSAlphabet base_decode 101 ''riscos-latin1'' ''iso-8859-1'' (Some [c1_changes]),
      new_RISCOSAlphabet base_decode 102 ''riscos-latin2'' ''iso-8859-2'' (Some [c1_changes]),
      new_RISCOSAlphabet base_decode 103 ''riscos-latin3'' ''iso-8859-3'' (Some [c1_changes, iso8859_3_changes]),
      new_RISCOSAlphabet base_decode 104 ''riscos-latin4'' ''iso-8859-4'' (Some [c1_changes]),
      new_RISCOSAlphabet base_decode 105 ''riscos-cyrillic'' ''iso-8859-5'' (Some [c1_changes]),
      new_RISCOSAlphabet base_decode 106 ''riscos-arabic'' ''iso-8859-6'' (Some [c1_changes, iso8859_6_changes]),
      new_RISCOSAlphabet base_decode 107 ''riscos-greek'' ''iso-8859-7'' (Some [c1_changes, iso8859_7_changes]),
      new_RISCOSAlphabet base_decode 108 ''riscos-hebrew'' ''iso-8859-8'' (Some [c1_changes, iso8859_8_changes]),
      new_RISCOSAlphabet base_decode 109 ''riscos-latin5'' ''iso-8859-9'' (Some [c1_changes]),
      new_RISCOSAlphabet base_decode 110 ''riscos-welsh'' ''iso-8859-1'' (Some [c1_changes, welsh_changes]),
      new_RISCOSUTF8 111 ''riscos-utf8'',
      new_RISCOSAlphabet base_decode 112 ''riscos-latin9'' ''iso-8859-15'' (Some [c1_changes]),
      new_RISCOSAlphabet base_decode 113 ''riscos-latin6'' ''iso-8859-10'' (Some [c1_changes]),
      new_RISCOSAlphabet base_decode 114 ''riscos-latin7'' ''iso-8859-13'' (Some [c1_changes]),
      new_RISCOSAlphabet base_decode 115 ''riscos-latin8'' ''iso-8859-14'' (Some [c1_changes]),
      new_RISCOSAlphabet base_decode 116 ''riscos-latin10'' ''iso-8859-16'' (Some [c1_changes])]"

text \<open>\<open>{encoding.name: encoding.codec for encoding in riscos_alphabets}\<close>\<close>

definition riscos_alphabets_map :: "encoding list \<Rightarrow> (string \<rightharpoonup> codec)" where
  "riscos_alphabets_map alphabets =
     foldl (\<lambda>m encoding. m(name_of encoding \<mapsto> codec_of encoding)) Map.empty alphabets"

text \<open>\<open>s.startswith(p)\<close> and \<open>s.split(sep, maxsplit)\<close> for a one-character separator.\<close>

definition startswith :: "string \<Rightarrow> string \<Rightarrow> bool" where
  "startswith s p = (take (length p) s = p)"

fun str_split :: "string \<Rightarrow> char \<Rightarrow> nat \<Rightarrow> string list" where
  "str_split s sep 0 = [s]"
| "str_split s sep (Suc n) =
     (if sep \<in> set s
      then takeWhile (\<lambda>c. c \<noteq> sep) s # str_split (tl (dropWhile (\<lambda>c. c \<noteq> sep) s)) sep n
      else [s])"

text \<open>
  \<open>int(number)\<close> on a string: white space is stripped at both ends, one sign may come
  first, and then decimal digits must follow, where single underscores may stand between
  two digits. Anything else is a \<open>ValueError\<close>, here \<open>None\<close>. White space is tab, line
  feed, vertical tab, form feed, carriage return and space, and beyond ASCII U+0085 and
  U+00A0; the separators U+001C..U+001F are not stripped. (The interpreter's limit on the
  number of digits is left out.)
\<close>

definition is_space :: "char \<Rightarrow> bool" where
  "is_space c =
     (let n = (of_char c :: nat)
      in (9 \<le> n \<and> n \<le> 13) \<or> n = 32 \<or> n = 0x85 \<or> n = 0xA0)"

definition is_digit :: "char \<Rightarrow> bool" where
  "is_digit c = (let n = (of_char c :: nat) in 48 \<le> n \<and> n \<le> 57)"

definition strip :: "string \<Rightarrow> string" where
  "strip s = rev (dropWhile is_space (rev (dropWhile is_space s)))"

fun parse_digits :: "nat \<Rightarrow> bool \<Rightarrow> string \<Rightarrow> nat option" where
  "parse_digits acc after_digit [] = (if after_digit then Some acc else None)"
| "parse_digits acc after_digit (c # cs) =
     (if is_digit c then parse_digits (10 * acc + (of_char c - 48)) True cs
      else if c = CHR ''_'' \<and> after_digit then parse_digits acc False cs
      else None)"

definition py_int :: "string \<Rightarrow> int option" where
  "py_int s =
     (case strip s of
        [] \<Rightarrow> None
      | c # cs \<Rightarrow>
          if c = CHR ''+'' then map_option int (parse_digits 0 False cs)
          else if c = CHR ''-'' then map_option (\<lambda>n. - int n) (parse_digits 0 False cs)
          else map_option int (parse_digits 0 False (c # cs)))"

text \<open>
  \<open>custom_search_function(encoding_name)\<close>, over the module's list of alphabets. The
  unpacking of the split into three names stands outside the \<open>try\<close>; \<open>None\<close> is
  Python's \<open>None\<close>.
\<close>

definition custom_search_function :: "encoding list \<Rightarrow> string \<Rightarrow> error + codec option" where
  "custom_search_function alphabets encoding_name =
     (if startswith encoding_name ''riscos-alphabet-''
      then (case str_split encoding_name CHR ''-'' 2 of
              [u, v, number] \<Rightarrow>
                (case py_int number of
                   None \<Rightarrow> Inr None
                 | Some alphabet_number \<Rightarrow>
                     (case find (\<lambda>encoding. alphabet_of encoding = alphabet_number) alphabets of
                        Some encoding \<Rightarrow> Inr (Some (codec_of encoding))
                      | None \<Rightarrow> Inr (riscos_alphabets_map alphabets encoding_name)))
            | _ \<Rightarrow> Inl ValueError)
      else Inr (riscos_alphabets_map alphabets encoding_name))"

subsection \<open>A concrete base table\<close>

text \<open>
  The table of iso-8859-1, where byte \<open>i\<close> decodes to the character U+00\<open>i\<close>, handed out
  for every encoding name: the provider of base tables at the concrete inputs below.
\<close>

definition latin1_codecs :: "string \<Rightarrow> uchar list" where
  "latin1_codecs enc = [0..<256]"

text \<open>The object that \<open>RISCOSAlphabet(101, 'riscos-latin1', 'iso-8859-1', changes=[c1_changes])\<close>
  builds over that table (lemma \<open>riscos_latin1_built\<close>).\<close>

definition riscos_latin1 :: RISCOSAlphabet where
  "riscos_latin1 =
     projr (RISCOSAlphabet_init latin1_codecs 101 ''riscos-latin1'' ''iso-8859-1''
              (Some [c1_changes]))"

text \<open>The object that
  \<open>RISCOSAlphabet(110, 'riscos-welsh', 'iso-8859-1', changes=[c1_changes, welsh_changes])\<close>
  builds over that table (lemma \<open>riscos_welsh_built\<close>).\<close>

definition riscos_welsh :: RISCOSAlphabet where
  "riscos_welsh =
     projr (RISCOSAlphabet_init latin1_codecs 110 ''riscos-welsh'' ''iso-8859-1''
              (Some [c1_changes, welsh_changes]))"



text \<open>The module's list of alphabets over that provider (lemma \<open>registered_built\<close>).\<close>

definition registered :: "encoding list" where
  "registered = projr (riscos_alphabets latin1_codecs)"

section \<open>Properties\<close>

subsection \<open>The encode table as the inverse of the decode table\<close>

lemma make_encode_table_Nil: "make_encode_table [] = Map.empty"
  by (simp add: make_encode_table_def)

lemma make_encode_table_snoc:
  "make_encode_table (xs @ [x]) = (make_encode_table xs)(scalar x \<mapsto> length xs)"
  by (simp add: make_encode_table_def enumerate_append_eq)

lemma dom_make_encode_table: "dom (make_encode_table table) = scalar ` set table"
proof (induction table rule: rev_induct)
  case Nil
  show ?case by (simp add: make_encode_table_Nil)
next
  case (snoc x xs)
  have "dom (make_encode_table (xs @ [x])) = insert (scalar x) (dom (make_encode_table xs))"
    by (simp add: make_encode_table_snoc)
  with snoc show ?case by simp
qed

lemma make_encode_table_Some:
  "make_encode_table table c = Some i \<longleftrightarrow>
     i < length table \<and> scalar (table ! i) = c \<and> (\<forall>j. i < j \<and> j < length table \<longrightarrow> scalar (table ! j) \<noteq> c)"
proof (induction table arbitrary: i rule: rev_induct)
  case Nil
  show ?case by (simp add: make_encode_table_Nil)
next
  case (snoc x xs)
  show ?case
  proof (cases "scalar x = c")
    case True
    have "i < Suc (length xs) \<and> scalar ((xs @ [x]) ! i) = c \<and>
            (\<forall>j. i < j \<and> j < Suc (length xs) \<longrightarrow> scalar ((xs @ [x]) ! j) \<noteq> c) \<longleftrightarrow> i = length xs"
    proof
      assume h: "i < Suc (length xs) \<and> scalar ((xs @ [x]) ! i) = c \<and>
            (\<forall>j. i < j \<and> j < Suc (length xs) \<longrightarrow> scalar ((xs @ [x]) ! j) \<noteq> c)"
      show "i = length xs"
      proof (rule ccontr)
        assume "i \<noteq> length xs"
        with h have "i < length xs" by simp
        moreover from h have "\<forall>j. i < j \<and> j < Suc (length xs) \<longrightarrow> scalar ((xs @ [x]) ! j) \<noteq> c"
          by blast
        ultimately have "scalar ((xs @ [x]) ! length xs) \<noteq> c" by blast
        with True show False by simp
      qed
    next
      assume "i = length xs"
      with True show "i < Suc (length xs) \<and> scalar ((xs @ [x]) ! i) = c \<and>
            (\<forall>j. i < j \<and> j < Suc (length xs) \<longrightarrow> scalar ((xs @ [x]) ! j) \<noteq> c)" by simp
    qed
    with True show ?thesis by (auto simp: make_encode_table_snoc)
  next
    case False
    have "i < Suc (length xs) \<and> scalar ((xs @ [x]) ! i) = c \<and>
            (\<forall>j. i < j \<and> j < Suc (length xs) \<longrightarrow> scalar ((xs @ [x]) ! j) \<noteq> c) \<longleftrightarrow>
          i < length xs \<and> scalar (xs ! i) = c \<and> (\<forall>j. i < j \<and> j < length xs \<longrightarrow> scalar (xs ! j) \<noteq> c)"
      using False by (auto simp: nth_append less_Suc_eq)
    with False snoc show ?thesis by (simp add: make_encode_table_snoc)
  qed
qed

lemma make_encode_table_Max:
  assumes "c \<in> scalar ` set table"
  shows "make_encode_table table c = Some (Max {k. k < length table \<and> scalar (table ! k) = c})"
proof -
  define S where "S = {k. k < length table \<and> scalar (table ! k) = c}"
  define m where "m = Max S"
  have fin: "finite S" by (simp add: S_def)
  from assms obtain x where "x \<in> set table" and "scalar x = c" by blast
  then obtain i where "i < length table" and "scalar (table ! i) = c"
    by (auto simp: in_set_conv_nth)
  then have "i \<in> S" by (simp add: S_def)
  then have ne: "S \<noteq> {}" by blast
  from fin ne have "m \<in> S" unfolding m_def by (rule Max_in)
  then have m: "m < length table" "scalar (table ! m) = c" by (simp_all add: S_def)
  have "\<forall>j. m < j \<and> j < length table \<longrightarrow> scalar (table ! j) \<noteq> c"
  proof (intro allI impI notI)
    fix j assume j: "m < j \<and> j < length table" and "scalar (table ! j) = c"
    then have "j \<in> S" by (simp add: S_def)
    with fin have "j \<le> m" unfolding m_def by (rule Max_ge)
    with j show False by simp
  qed
  with m have "make_encode_table table c = Some m"
    by (simp only: make_encode_table_Some simp_thms)
  then show ?thesis by (simp only: m_def S_def)
qed

subsection \<open>Applying the changes\<close>

lemma apply_change_Inr_iff:
  "apply_change t ch = Inr t' \<longleftrightarrow>
     (\<forall>k\<in>fst ` set ch. k < length t) \<and> t' = foldl (\<lambda>t (k, v). t[k := v]) t ch"
proof (induction ch arbitrary: t)
  case Nil
  show ?case by auto
next
  case (Cons p ch)
  obtain a b where p: "p = (a, b)" by (cases p)
  show ?case
  proof (cases "a < length t")
    case True
    then show ?thesis using Cons.IH [of "t[a := b]"] by (simp add: p store_def)
  next
    case False
    then show ?thesis by (simp add: p store_def)
  qed
qed

lemma apply_change_ok:
  "\<forall>k\<in>fst ` set ch. k < length t \<Longrightarrow>
     apply_change t ch = Inr (foldl (\<lambda>t (k, v). t[k := v]) t ch)"
  by (simp add: apply_change_Inr_iff)

lemma length_foldl_update: "length (foldl (\<lambda>t (k, v). t[k := v]) t ch) = length t"
  by (induction ch arbitrary: t) auto

lemma nth_foldl_update:
  "k < length t \<Longrightarrow>
     foldl (\<lambda>t (k, v). t[k := v]) t ch ! k =
       (case map_of (rev ch) k of None \<Rightarrow> t ! k | Some v \<Rightarrow> v)"
proof (induction ch arbitrary: t)
  case Nil
  show ?case by simp
next
  case (Cons p ch)
  obtain a b where p: "p = (a, b)" by (cases p)
  have "foldl (\<lambda>t (k, v). t[k := v]) t (p # ch) ! k =
          (case map_of (rev ch) k of None \<Rightarrow> t[a := b] ! k | Some v \<Rightarrow> v)"
    using Cons.IH [of "t[a := b]"] Cons.prems by (simp add: p)
  also have "\<dots> = (case map_of (rev (p # ch)) k of None \<Rightarrow> t ! k | Some v \<Rightarrow> v)"
    using Cons.prems by (auto simp: p map_add_def split: option.splits)
  finally show ?case .
qed

lemma apply_change_append:
  "apply_change t (a @ b) =
     (case apply_change t a of Inl e \<Rightarrow> Inl e | Inr t' \<Rightarrow> apply_change t' b)"
  by (induction a arbitrary: t) (auto simp: store_def)

lemma apply_changes_concat: "apply_changes t chs = apply_change t (concat chs)"
  by (induction chs arbitrary: t) (auto simp: apply_change_append split: sum.splits)

lemma RISCOSAlphabet_init_Inr_iff:
  "RISCOSAlphabet_init bd a n b chs = Inr self \<longleftrightarrow>
     (\<forall>k\<in>fst ` set (concat (changes_or chs)). k < length (bd b)) \<and>
     self = \<lparr> alphabet = a, name = n, base_encoding = b,
              decode_table =
                foldl (\<lambda>t (k, v). t[k := v]) (map Str (bd b)) (concat (changes_or chs)),
              encode_table = make_encode_table
                 (foldl (\<lambda>t (k, v). t[k := v]) (map Str (bd b)) (concat (changes_or chs))) \<rparr>"
proof (cases "\<forall>k\<in>fst ` set (concat (changes_or chs)). k < length (map Str (bd b))")
  case True
  then have "apply_change (map Str (bd b)) (concat (changes_or chs)) =
      Inr (foldl (\<lambda>t (k, v). t[k := v]) (map Str (bd b)) (concat (changes_or chs)))"
    by (rule apply_change_ok)
  with True show ?thesis
    by (auto simp: RISCOSAlphabet_init_def apply_changes_concat simp del: set_concat)
next
  case False
  then have "\<And>t'. apply_change (map Str (bd b)) (concat (changes_or chs)) \<noteq> Inr t'"
    by (simp only: apply_change_Inr_iff) blast
  with False show ?thesis
    by (auto simp: RISCOSAlphabet_init_def apply_changes_concat split: sum.splits
          simp del: set_concat)
qed

lemma init_fields:
  assumes "RISCOSAlphabet_init bd a n b chs = Inr self"
  shows "name self = n" and "alphabet self = a"
    and "length (decode_table self) = length (bd b)"
    and "encode_table self = make_encode_table (decode_table self)"
  using assms by (simp_all add: RISCOSAlphabet_init_Inr_iff length_foldl_update del: set_concat)

lemma init_nth:
  assumes "RISCOSAlphabet_init bd a n b chs = Inr self" and "k < length (bd b)"
  shows "decode_table self ! k =
           (case map_of (rev (concat (changes_or chs))) k of
              None \<Rightarrow> Str (bd b ! k)
            | Some v \<Rightarrow> v)"
  using assms
  by (simp add: RISCOSAlphabet_init_Inr_iff nth_foldl_update split: option.splits
        del: set_concat)

lemma init_ok:
  assumes "\<forall>k\<in>fst ` set (concat (changes_or chs)). k < length (bd b)"
  shows "\<exists>self. RISCOSAlphabet_init bd a n b chs = Inr self"
  using assms unfolding RISCOSAlphabet_init_Inr_iff by blast

subsection \<open>The alphabet riscos-latin1 over the iso-8859-1 table\<close>

lemma c1_changes_keys:
  "(k, v) \<in> set c1_changes \<Longrightarrow> 0x80 \<le> k \<and> k < 0xA0 \<and> 256 \<le> scalar v"
  by (auto simp: c1_changes_def FFFD_def)

lemma c1_changes_map_of:
  "map_of (rev c1_changes) k = Some v \<Longrightarrow> 0x80 \<le> k \<and> k < 0xA0 \<and> 256 \<le> scalar v"
  using c1_changes_keys [of k v] by (auto dest: map_of_SomeD)

lemma c1_changes_in_range:
  "length (bd b) = 256 \<Longrightarrow>
     \<forall>k\<in>fst ` set (concat (changes_or (Some [c1_changes]))). k < length (bd b)"
  using c1_changes_keys by (fastforce simp: changes_or_def)

lemma riscos_latin1_built:
  "RISCOSAlphabet_init latin1_codecs 101 ''riscos-latin1'' ''iso-8859-1'' (Some [c1_changes])
     = Inr riscos_latin1"
proof -
  have "length (latin1_codecs ''iso-8859-1'') = 256" by (simp add: latin1_codecs_def)
  then have "\<forall>k\<in>fst ` set (concat (changes_or (Some [c1_changes]))).
          k < length (latin1_codecs ''iso-8859-1'')"
    by (rule c1_changes_in_range)
  then have "\<exists>self.
      RISCOSAlphabet_init latin1_codecs 101 ''riscos-latin1'' ''iso-8859-1'' (Some [c1_changes])
        = Inr self"
    by (rule init_ok)
  then show ?thesis by (auto simp: riscos_latin1_def)
qed

lemma riscos_latin1_fields:
  "name riscos_latin1 = ''riscos-latin1''"
  "alphabet riscos_latin1 = 101"
  "length (decode_table riscos_latin1) = 256"
  "encode_table riscos_latin1 = make_encode_table (decode_table riscos_latin1)"
  using init_fields [OF riscos_latin1_built] by (simp_all add: latin1_codecs_def)

lemma riscos_latin1_nth:
  "k < 256 \<Longrightarrow>
     decode_table riscos_latin1 ! k =
       (case map_of (rev c1_changes) k of None \<Rightarrow> Str k | Some v \<Rightarrow> v)"
  using init_nth [OF riscos_latin1_built, of k]
  by (simp add: latin1_codecs_def changes_or_def split: option.splits)

lemma riscos_latin1_ascii: "k < 0x80 \<Longrightarrow> decode_table riscos_latin1 ! k = Str k"
  using c1_changes_map_of [of k] by (auto simp: riscos_latin1_nth split: option.splits)

lemma riscos_latin1_87: "decode_table riscos_latin1 ! 0x87 = FFFD_literal"
  by (simp add: riscos_latin1_nth c1_changes_def)


lemma riscos_latin1_encode_ascii:
  assumes "c < 0x80"
  shows "encode_table riscos_latin1 c = Some c"
proof -
  have "\<forall>j. c < j \<and> j < 256 \<longrightarrow> scalar (decode_table riscos_latin1 ! j) \<noteq> c"
  proof (intro allI impI)
    fix j assume j: "c < j \<and> j < 256"
    show "scalar (decode_table riscos_latin1 ! j) \<noteq> c"
      using j assms c1_changes_map_of [of j]
      by (auto simp: riscos_latin1_nth split: option.splits)
  qed
  with assms show ?thesis
    by (simp add: riscos_latin1_fields make_encode_table_Some riscos_latin1_ascii)
qed

lemma riscos_latin1_encode_4E00: "encode_table riscos_latin1 0x4E00 = None"
proof -
  have "0x4E00 \<notin> scalar ` set (decode_table riscos_latin1)"
  proof
    assume "0x4E00 \<in> scalar ` set (decode_table riscos_latin1)"
    then obtain k where k: "k < 256" "scalar (decode_table riscos_latin1 ! k) = 0x4E00"
      by (auto simp: in_set_conv_nth riscos_latin1_fields)
    then show False
      by (auto simp: riscos_latin1_nth c1_changes_def FFFD_def split: option.splits if_splits)
  qed
  then have "0x4E00 \<notin> dom (make_encode_table (decode_table riscos_latin1))"
    by (simp only: dom_make_encode_table not_False_eq_True)
  then have "make_encode_table (decode_table riscos_latin1) 0x4E00 = None"
    by (simp only: domIff not_not)
  then show ?thesis
    by (simp only: riscos_latin1_fields(4))
qed

lemma riscos_latin1_encode_FFFD: "encode_table riscos_latin1 FFFD = Some 0x87"
proof -
  have "\<forall>j. 0x87 < j \<and> j < 256 \<longrightarrow> scalar (decode_table riscos_latin1 ! j) \<noteq> FFFD"
  proof (intro allI impI)
    fix j :: nat assume j: "0x87 < j \<and> j < 256"
    show "scalar (decode_table riscos_latin1 ! j) \<noteq> FFFD"
      using j
      by (auto simp: riscos_latin1_nth c1_changes_def FFFD_def split: option.splits if_splits)
  qed
  then show ?thesis
    by (simp add: riscos_latin1_fields make_encode_table_Some riscos_latin1_87)
qed

subsection \<open>The alphabet riscos-welsh over the iso-8859-1 table\<close>

lemma welsh_changes_keys:
  "(k, v) \<in> set welsh_changes \<Longrightarrow> 0xA0 \<le> k \<and> k < 256 \<and> 256 \<le> scalar v"
  by (auto simp: welsh_changes_def)

lemma riscos_welsh_built:
  "RISCOSAlphabet_init latin1_codecs 110 ''riscos-welsh'' ''iso-8859-1''
     (Some [c1_changes, welsh_changes]) = Inr riscos_welsh"
proof -
  have "\<forall>k\<in>fst ` set (concat (changes_or (Some [c1_changes, welsh_changes]))).
          k < length (latin1_codecs ''iso-8859-1'')"
    using c1_changes_keys welsh_changes_keys
    by (fastforce simp: changes_or_def latin1_codecs_def)
  then have "\<exists>self.
      RISCOSAlphabet_init latin1_codecs 110 ''riscos-welsh'' ''iso-8859-1''
        (Some [c1_changes, welsh_changes]) = Inr self"
    by (rule init_ok)
  then show ?thesis by (auto simp: riscos_welsh_def)
qed

lemma riscos_welsh_nth:
  "k < 256 \<Longrightarrow>
     decode_table riscos_welsh ! k =
       (case map_of (rev welsh_changes) k of
          None \<Rightarrow> (case map_of (rev c1_changes) k of None \<Rightarrow> Str k | Some v \<Rightarrow> v)
        | Some v \<Rightarrow> v)"
  using init_nth [OF riscos_welsh_built, of k]
  by (simp add: latin1_codecs_def changes_or_def map_add_def split: option.splits)

lemma riscos_welsh_length: "length (decode_table riscos_welsh) = 256"
  using init_fields(3) [OF riscos_welsh_built] by (simp add: latin1_codecs_def)

lemma riscos_welsh_81: "decode_table riscos_welsh ! 0x81 = Str 0x174"
  by (simp add: riscos_welsh_nth welsh_changes_def c1_changes_def)

lemma riscos_welsh_D0: "decode_table riscos_welsh ! 0xD0 = Str 0x174"
  by (simp add: riscos_welsh_nth welsh_changes_def c1_changes_def)

lemma riscos_welsh_encode_174: "encode_table riscos_welsh 0x174 = Some 0xD0"
proof -
  have "\<forall>j. 0xD0 < j \<and> j < 256 \<longrightarrow> scalar (decode_table riscos_welsh ! j) \<noteq> 0x174"
  proof (intro allI impI)
    fix j :: nat assume j: "0xD0 < j \<and> j < 256"
    show "scalar (decode_table riscos_welsh ! j) \<noteq> 0x174"
      using j c1_changes_map_of [of j]
      by (auto simp: riscos_welsh_nth welsh_changes_def split: option.splits if_splits)
  qed
  then have "make_encode_table (decode_table riscos_welsh) 0x174 = Some 0xD0"
    by (simp add: make_encode_table_Some riscos_welsh_D0 riscos_welsh_length)
  then show ?thesis by (simp only: init_fields(4) [OF riscos_welsh_built])
qed

subsection \<open>A caller's alphabet over a base table with an unmapped byte\<close>




subsection \<open>Joining, and the policies\<close>


lemma decode_readers_simps:
  "decode_readers self ''strict'' = Some (decode_strict self)"
  "decode_readers self ''ignore'' = Some (decode_ignore self)"
  "decode_readers self ''replace'' = Some (decode_replace self)"
  by (simp_all add: decode_readers_def)

lemma encode_readers_simps:
  "encode_readers self ''strict'' = Some (encode_strict self)"
  "encode_readers self ''ignore'' = Some (encode_ignore self)"
  "encode_readers self ''replace'' = Some (encode_replace self)"
  by (simp_all add: encode_readers_def)

lemma default_policies:
  "encode self text None = encode self text (Some ''replace'')"
  "decode self binary None = decode self binary (Some ''strict'')"
  by (simp_all add: encode_def decode_def)

lemma decode_ignore_replace_total:
  assumes "length (decode_table self) = 256"
  shows "decode self binary (Some ''replace'') =
           Inr (map (\<lambda>x. scalar (decode_table self ! unat x)) binary, length binary)"
    and "decode self binary (Some ''ignore'') =
           Inr (map scalar (filter (\<lambda>nc. nc \<noteq> FFFD_literal)
                  (map (\<lambda>x. decode_table self ! unat x) binary)),
                length binary)"
proof -
  have lt: "\<And>x :: byte. unat x < length (decode_table self)"
  proof -
    fix x :: byte
    have "unat x < 2 ^ 8" using unsigned_less [of x] by simp
    with assms show "unat x < length (decode_table self)" by simp
  qed
  have "join (map (\<lambda>x. decode_replace self (unat x)) binary) =
          Inr (map (\<lambda>x. scalar (decode_table self ! unat x)) binary)"
    by (induction binary) (simp_all add: decode_replace_def table_get_def lt)
  then show "decode self binary (Some ''replace'') =
           Inr (map (\<lambda>x. scalar (decode_table self ! unat x)) binary, length binary)"
    by (simp add: decode_def decode_readers_simps)
  have "join (map (\<lambda>x. decode_ignore self (unat x)) binary) =
          Inr (map scalar (filter (\<lambda>nc. nc \<noteq> FFFD_literal)
                 (map (\<lambda>x. decode_table self ! unat x) binary)))"
    by (induction binary) (simp_all add: decode_ignore_def table_get_def lt)
  then show "decode self binary (Some ''ignore'') =
           Inr (map scalar (filter (\<lambda>nc. nc \<noteq> FFFD_literal)
                  (map (\<lambda>x. decode_table self ! unat x) binary)),
                length binary)"
    by (simp add: decode_def decode_readers_simps)
qed

lemma bytearray_PyStr_raises:
  assumes "c \<in> set cs" and "g c = Inr (PyStr s)"
  shows "\<exists>e. bytearray (map g cs) = Inl e"
  using assms
proof (induction cs)
  case Nil
  then show ?case by simp
next
  case (Cons x xs)
  show ?case
  proof (cases "g x")
    case (Inl e)
    then show ?thesis by simp
  next
    case (Inr v)
    show ?thesis
    proof (cases v)
      case (PyStr t)
      with Inr show ?thesis by simp
    next
      case (PyInt i)
      with Inr Cons show ?thesis by (cases "x = c") (auto split: sum.splits)
    qed
  qed
qed

lemma encode_unmapped_raises:
  assumes "c \<in> set text" and "encode_table self c = None"
  shows "\<exists>e. encode self text (Some ''ignore'') = Inl e"
    and "\<exists>e. encode self text (Some ''replace'') = Inl e"
    and "\<exists>e. encode self text None = Inl e"
proof -
  have "\<exists>e. bytearray (map (encode_ignore self) text) = Inl e"
    using assms(1) by (rule bytearray_PyStr_raises) (simp add: encode_ignore_def assms(2))
  then show "\<exists>e. encode self text (Some ''ignore'') = Inl e"
    by (auto simp: encode_def encode_readers_simps)
  have "\<exists>e. bytearray (map (encode_replace self) text) = Inl e"
    using assms(1) by (rule bytearray_PyStr_raises) (simp add: encode_replace_def assms(2))
  then show "\<exists>e. encode self text (Some ''replace'') = Inl e"
    and "\<exists>e. encode self text None = Inl e"
    by (auto simp: encode_def encode_readers_simps)
qed

subsection \<open>Bytes and table indices\<close>

lemma unat_byte_less: "unat (x :: byte) < 256"
  using unsigned_less [of x] by simp

lemma byte_of_index: "k < 256 \<Longrightarrow> unat (word_of_int (int k) :: byte) = k"
proof -
  assume "k < 256"
  have "unat (word_of_int (int k) :: byte) = k mod 2 ^ LENGTH(8)"
    by (simp only: of_int_of_nat_eq unat_of_nat)
  also have "\<dots> = k" using \<open>k < 256\<close> by simp
  finally show ?thesis .
qed

subsection \<open>The list of alphabets\<close>

lemma list_display_map_Inr: "list_display (map Inr ys) = Inr ys"
  by (induction ys) simp_all

lemma list_display_InrD: "list_display xs = Inr ys \<Longrightarrow> xs = map Inr ys"
proof (induction xs arbitrary: ys)
  case Nil
  then show ?case by simp
next
  case (Cons x xs)
  show ?case
  proof (cases x)
    case (Inl e)
    with Cons.prems show ?thesis by simp
  next
    case (Inr v)
    with Cons.prems obtain zs where zs: "list_display xs = Inr zs" and ys: "ys = v # zs"
      by (auto split: sum.splits)
    from Cons.IH [OF zs] Inr ys show ?thesis by simp
  qed
qed

lemma new_RISCOSAlphabet_InrD:
  assumes "new_RISCOSAlphabet bd a n b chs = Inr e"
  shows "name_of e = n \<and> alphabet_of e = a \<and>
         (\<exists>self. e = Table self \<and> RISCOSAlphabet_init bd a n b chs = Inr self)"
proof -
  from assms obtain self where self: "RISCOSAlphabet_init bd a n b chs = Inr self"
    and e: "e = Table self"
    by (auto simp: new_RISCOSAlphabet_def split: sum.splits)
  from init_fields(1,2) [OF self] e self show ?thesis by simp
qed

lemma search_name_101:
  "startswith ''riscos-alphabet-101'' ''riscos-alphabet-''"
  "str_split ''riscos-alphabet-101'' CHR ''-'' 2 = [''riscos'', ''alphabet'', ''101'']"
  "py_int ''101'' = Some 101"
  "\<not> startswith ''riscos-latin1'' ''riscos-alphabet-''"
  by (simp_all add: startswith_def numeral_2_eq_2 py_int_def strip_def is_space_def is_digit_def)

lemma riscos_alphabets_InrD:
  assumes "riscos_alphabets bd = Inr alphabets"
  shows "\<exists>self rest.
           alphabets = Table self # rest \<and>
           RISCOSAlphabet_init bd 101 ''riscos-latin1'' ''iso-8859-1'' (Some [c1_changes]) = Inr self \<and>
           map name_of rest =
             [''riscos-latin2'', ''riscos-latin3'', ''riscos-latin4'', ''riscos-cyrillic'',
              ''riscos-arabic'', ''riscos-greek'', ''riscos-hebrew'', ''riscos-latin5'',
              ''riscos-welsh'', ''riscos-utf8'', ''riscos-latin9'', ''riscos-latin6'',
              ''riscos-latin7'', ''riscos-latin8'', ''riscos-latin10'']"
proof -
  from assms have "list_display
     [new_RISCOSAlphabet bd 101 ''riscos-latin1'' ''iso-8859-1'' (Some [c1_changes]),
      new_RISCOSAlphabet bd 102 ''riscos-latin2'' ''iso-8859-2'' (Some [c1_changes]),
      new_RISCOSAlphabet bd 103 ''riscos-latin3'' ''iso-8859-3'' (Some [c1_changes, iso8859_3_changes]),
      new_RISCOSAlphabet bd 104 ''riscos-latin4'' ''iso-8859-4'' (Some [c1_changes]),
      new_RISCOSAlphabet bd 105 ''riscos-cyrillic'' ''iso-8859-5'' (Some [c1_changes]),
      new_RISCOSAlphabet bd 106 ''riscos-arabic'' ''iso-8859-6'' (Some [c1_changes, iso8859_6_changes]),
      new_RISCOSAlphabet bd 107 ''riscos-greek'' ''iso-8859-7'' (Some [c1_changes, iso8859_7_changes]),
      new_RISCOSAlphabet bd 108 ''riscos-hebrew'' ''iso-8859-8'' (Some [c1_changes, iso8859_8_changes]),
      new_RISCOSAlphabet bd 109 ''riscos-latin5'' ''iso-8859-9'' (Some [c1_changes]),
      new_RISCOSAlphabet bd 110 ''riscos-welsh'' ''iso-8859-1'' (Some [c1_changes, welsh_changes]),
      new_RISCOSUTF8 111 ''riscos-utf8'',
      new_RISCOSAlphabet bd 112 ''riscos-latin9'' ''iso-8859-15'' (Some [c1_changes]),
      new_RISCOSAlphabet bd 113 ''riscos-latin6'' ''iso-8859-10'' (Some [c1_changes]),
      new_RISCOSAlphabet bd 114 ''riscos-latin7'' ''iso-8859-13'' (Some [c1_changes]),
      new_RISCOSAlphabet bd 115 ''riscos-latin8'' ''iso-8859-14'' (Some [c1_changes]),
      new_RISCOSAlphabet bd 116 ''riscos-latin10'' ''iso-8859-16'' (Some [c1_changes])]
     = Inr alphabets"
    by (simp only: riscos_alphabets_def)
  then have "[new_RISCOSAlphabet bd 101 ''riscos-latin1'' ''iso-8859-1'' (Some [c1_changes]),
      new_RISCOSAlphabet bd 102 ''riscos-latin2'' ''iso-8859-2'' (Some [c1_changes]),
      new_RISCOSAlphabet bd 103 ''riscos-latin3'' ''iso-8859-3'' (Some [c1_changes, iso8859_3_changes]),
      new_RISCOSAlphabet bd 104 ''riscos-latin4'' ''iso-8859-4'' (Some [c1_changes]),
      new_RISCOSAlphabet bd 105 ''riscos-cyrillic'' ''iso-8859-5'' (Some [c1_changes]),
      new_RISCOSAlphabet bd 106 ''riscos-arabic'' ''iso-8859-6'' (Some [c1_changes, iso8859_6_changes]),
      new_RISCOSAlphabet bd 107 ''riscos-greek'' ''iso-8859-7'' (Some [c1_changes, iso8859_7_changes]),
      new_RISCOSAlphabet bd 108 ''riscos-hebrew'' ''iso-8859-8'' (Some [c1_changes, iso8859_8_changes]),
      new_RISCOSAlphabet bd 109 ''riscos-latin5'' ''iso-8859-9'' (Some [c1_changes]),
      new_RISCOSAlphabet bd 110 ''riscos-welsh'' ''iso-8859-1'' (Some [c1_changes, welsh_changes]),
      new_RISCOSUTF8 111 ''riscos-utf8'',
      new_RISCOSAlphabet bd 112 ''riscos-latin9'' ''iso-8859-15'' (Some [c1_changes]),
      new_RISCOSAlphabet bd 113 ''riscos-latin6'' ''iso-8859-10'' (Some [c1_changes]),
      new_RISCOSAlphabet bd 114 ''riscos-latin7'' ''iso-8859-13'' (Some [c1_changes]),
      new_RISCOSAlphabet bd 115 ''riscos-latin8'' ''iso-8859-14'' (Some [c1_changes]),
      new_RISCOSAlphabet bd 116 ''riscos-latin10'' ''iso-8859-16'' (Some [c1_changes])]
     = map Inr alphabets"
    by (rule list_display_InrD)
  then show ?thesis
    by (clarsimp simp: Cons_eq_map_conv new_RISCOSUTF8_def dest!: new_RISCOSAlphabet_InrD)
qed

lemma alphabets_map_other_names:
  "nm \<notin> set (map name_of es) \<Longrightarrow>
     foldl (\<lambda>m encoding. m(name_of encoding \<mapsto> codec_of encoding)) m es nm = m nm"
  by (induction es arbitrary: m) auto

lemma changes_keys_256:
  assumes "ch \<in> {c1_changes, welsh_changes, iso8859_3_changes, iso8859_6_changes,
                  iso8859_7_changes, iso8859_8_changes}"
    and "(k, v) \<in> set ch"
  shows "k < 256"
proof -
  have "(k, v) \<in> set iso8859_3_changes \<Longrightarrow> k < 256"
    by (auto simp: iso8859_3_changes_def)
  moreover have "(k, v) \<in> set iso8859_6_changes \<Longrightarrow> k < 256"
    by (auto simp: iso8859_6_changes_def)
  moreover have "(k, v) \<in> set iso8859_7_changes \<Longrightarrow> k < 256"
    by (auto simp: iso8859_7_changes_def)
  moreover have "(k, v) \<in> set iso8859_8_changes \<Longrightarrow> k < 256"
    by (auto simp: iso8859_8_changes_def)
  moreover have "(k, v) \<in> set c1_changes \<Longrightarrow> k < 256"
    using c1_changes_keys [of k v] by simp
  moreover have "(k, v) \<in> set welsh_changes \<Longrightarrow> k < 256"
    using welsh_changes_keys [of k v] by simp
  ultimately show ?thesis using assms by auto
qed

lemma new_RISCOSAlphabet_ok:
  assumes "length (bd b) = 256"
    and "set chs \<subseteq> {c1_changes, welsh_changes, iso8859_3_changes, iso8859_6_changes,
                        iso8859_7_changes, iso8859_8_changes}"
    and "chs \<noteq> []"
  shows "\<exists>e. new_RISCOSAlphabet bd a n b (Some chs) = Inr e"
proof -
  from assms(3) have ch: "changes_or (Some chs) = chs"
    by (cases chs) (simp_all add: changes_or_def)
  have "\<forall>k\<in>fst ` set (concat (changes_or (Some chs))). k < length (bd b)"
  proof
    fix k assume "k \<in> fst ` set (concat (changes_or (Some chs)))"
    then obtain v c where c: "c \<in> set chs" and kv: "(k, v) \<in> set c"
      by (auto simp: ch)
    from assms(2) c have "c \<in> {c1_changes, welsh_changes, iso8859_3_changes,
        iso8859_6_changes, iso8859_7_changes, iso8859_8_changes}" by (rule subsetD)
    then have "k < 256" using kv by (rule changes_keys_256)
    with assms(1) show "k < length (bd b)" by simp
  qed
  then have "\<exists>self. RISCOSAlphabet_init bd a n b (Some chs) = Inr self"
    by (rule init_ok)
  then obtain self where "RISCOSAlphabet_init bd a n b (Some chs) = Inr self" ..
  then have "new_RISCOSAlphabet bd a n b (Some chs) = Inr (Table self)"
    by (simp add: new_RISCOSAlphabet_def)
  then show ?thesis ..
qed

lemma list_display_ok:
  "\<forall>x\<in>set xs. \<exists>y. x = Inr y \<Longrightarrow> \<exists>ys. list_display xs = Inr ys"
proof (induction xs)
  case Nil
  show ?case by simp
next
  case (Cons x xs)
  then obtain y ys where "x = Inr y" and "list_display xs = Inr ys" by auto
  then show ?case by simp
qed

lemma riscos_alphabets_ok:
  assumes "\<forall>enc. length (bd enc) = 256"
  shows "\<exists>alphabets. riscos_alphabets bd = Inr alphabets"
proof -
  have ok: "\<And>a n b chs.
      set chs \<subseteq> {c1_changes, welsh_changes, iso8859_3_changes, iso8859_6_changes,
                    iso8859_7_changes, iso8859_8_changes} \<Longrightarrow> chs \<noteq> [] \<Longrightarrow>
      \<exists>e. new_RISCOSAlphabet bd a n b (Some chs) = Inr e"
    using assms by (intro new_RISCOSAlphabet_ok) simp_all
  show ?thesis
    unfolding riscos_alphabets_def
    by (rule list_display_ok) (simp add: ok new_RISCOSUTF8_def)
qed

lemma registered_built: "riscos_alphabets latin1_codecs = Inr registered"
proof -
  have "\<forall>enc. length (latin1_codecs enc) = 256" by (simp add: latin1_codecs_def)
  then have "\<exists>alphabets. riscos_alphabets latin1_codecs = Inr alphabets"
    by (rule riscos_alphabets_ok)
  then show ?thesis by (auto simp: registered_def)
qed

section \<open>The claims\<close>

subsection \<open>C1: the keys of the encode table\<close>

text \<open>
  C1, as stated: the replacement sentinel U+FFFD never appears as a key of the derived
  encode table, the derivation skipping every byte whose decode-table entry is the sentinel.
  The dictionary comprehension of \<open>__init__\<close> has no such test. In riscos-latin1, built
  from the iso-8859-1 table and \<open>c1_changes\<close>, the entry of byte 0x87 is the module's
  U+FFFD and U+FFFD is a key of the encode table, mapped to 0x87.
\<close>

theorem C1_sentinel_is_key:
  "RISCOSAlphabet_init latin1_codecs 101 ''riscos-latin1'' ''iso-8859-1'' (Some [c1_changes])
     = Inr riscos_latin1 \<and>
   decode_table riscos_latin1 ! 0x87 = FFFD_literal \<and>
   scalar FFFD_literal = FFFD \<and>
   encode_table riscos_latin1 FFFD = Some 0x87"
  using riscos_latin1_built riscos_latin1_87 scalar.simps(1) riscos_latin1_encode_FFFD
  by (intro conjI)

text \<open>
  C1, amended: for every transcoder that \<open>__init__\<close> builds, the keys of the encode table
  are exactly the values of the entries of the decode table, no byte being skipped; so
  U+FFFD is a key exactly when some byte's decode-table entry is U+FFFD.
\<close>

theorem C1_encode_table_keys:
  assumes "RISCOSAlphabet_init bd a n b chs = Inr self"
  shows "dom (encode_table self) = scalar ` set (decode_table self) \<and>
         (FFFD \<in> dom (encode_table self) \<longleftrightarrow>
            (\<exists>i < length (decode_table self). scalar (decode_table self ! i) = FFFD))"
proof -
  have keys: "dom (encode_table self) = scalar ` set (decode_table self)"
    using init_fields(4) [OF assms] by (simp add: dom_make_encode_table)
  have "FFFD \<in> scalar ` set (decode_table self) \<longleftrightarrow>
          (\<exists>i < length (decode_table self). scalar (decode_table self ! i) = FFFD)"
  proof
    assume "FFFD \<in> scalar ` set (decode_table self)"
    then obtain x where "x \<in> set (decode_table self)" and "scalar x = FFFD" by auto
    then show "\<exists>i < length (decode_table self). scalar (decode_table self ! i) = FFFD"
      by (auto simp: in_set_conv_nth)
  next
    assume "\<exists>i < length (decode_table self). scalar (decode_table self ! i) = FFFD"
    then obtain i where "i < length (decode_table self)"
      and "scalar (decode_table self ! i) = FFFD" by auto
    then have "decode_table self ! i \<in> set (decode_table self)"
      and "scalar (decode_table self ! i) = FFFD" by simp_all
    then show "FFFD \<in> scalar ` set (decode_table self)" by force
  qed
  with keys show ?thesis by (simp only: simp_thms)
qed

theorem C1_encode_table_keys_witness:
  "RISCOSAlphabet_init latin1_codecs 101 ''riscos-latin1'' ''iso-8859-1'' (Some [c1_changes])
     = Inr riscos_latin1 \<and>
   dom (encode_table riscos_latin1) = scalar ` set (decode_table riscos_latin1) \<and>
   FFFD \<in> dom (encode_table riscos_latin1)"
proof -
  note keys = C1_encode_table_keys [OF riscos_latin1_built]
  have "(135::nat) < length (decode_table riscos_latin1)"
    by (simp add: riscos_latin1_fields(3))
  moreover have "scalar (decode_table riscos_latin1 ! 135) = FFFD"
    by (simp add: riscos_latin1_87)
  ultimately
  have ex: "\<exists>i < length (decode_table riscos_latin1).
              scalar (decode_table riscos_latin1 ! i) = FFFD"
    by blast
  from keys
  have "dom (encode_table riscos_latin1) = scalar ` set (decode_table riscos_latin1)" ..
  moreover from keys ex have "FFFD \<in> dom (encode_table riscos_latin1)"
    by (elim conjE) (rule iffD2)
  ultimately show ?thesis using riscos_latin1_built by (intro conjI)
qed

subsection \<open>C2: strict decoding of an unmapped byte\<close>




subsection \<open>C3, C7, C9: encoding a character that has no byte\<close>

text \<open>
  The encoder functions of the policies \<open>ignore\<close> and \<open>replace\<close> answer a character that
  has no entry with the strings \<open>''\<close> and \<open>'?'\<close>, and \<open>encode\<close> hands them to
  \<open>bytearray\<close>, which takes integers only: the call raises \<open>TypeError\<close> (lemma
  \<open>encode_unmapped_raises\<close>). Decoding under these two policies never fails over a table
  of 256 entries (lemma \<open>decode_ignore_replace_total\<close>), where the empty string goes to
  \<open>join\<close>.

  C3 says that neither direction fails under \<open>ignore\<close> or \<open>replace\<close>. Encoding the text
  \<open>A\<close>, U+4E00, \<open>B\<close> with riscos-latin1 under \<open>ignore\<close> raises.
\<close>

theorem C3_encode_ignore_raises:
  "RISCOSAlphabet_init latin1_codecs 101 ''riscos-latin1'' ''iso-8859-1'' (Some [c1_changes])
     = Inr riscos_latin1 \<and>
   encode riscos_latin1 [0x41, 0x4E00, 0x42] (Some ''ignore'') = Inl TypeError"
  by (simp add: riscos_latin1_built encode_def encode_readers_simps encode_ignore_def
        riscos_latin1_encode_ascii riscos_latin1_encode_4E00)

text \<open>
  C7 says that under \<open>replace\<close> the byte 0x3F stands for a character that has no entry.
  Encoding U+4E00 with riscos-latin1 under \<open>replace\<close> raises.
\<close>

theorem C7_encode_replace_raises:
  "RISCOSAlphabet_init latin1_codecs 101 ''riscos-latin1'' ''iso-8859-1'' (Some [c1_changes])
     = Inr riscos_latin1 \<and>
   encode riscos_latin1 [0x4E00] (Some ''replace'') = Inl TypeError"
  by (simp add: riscos_latin1_built encode_def encode_readers_simps encode_replace_def
        riscos_latin1_encode_4E00)

text \<open>
  C9 says that the policies by default are \<open>replace\<close> for \<open>encode\<close> and \<open>strict\<close> for
  \<open>decode\<close> (so it is: lemma \<open>default_policies\<close>), and that by default a character that
  has no entry is therefore substituted. Encoding \<open>A\<close>, U+4E00 with riscos-latin1 and no
  policy raises.
\<close>

theorem C9_default_encode_raises:
  "RISCOSAlphabet_init latin1_codecs 101 ''riscos-latin1'' ''iso-8859-1'' (Some [c1_changes])
     = Inr riscos_latin1 \<and>
   encode riscos_latin1 [0x41, 0x4E00] None = Inl TypeError"
  by (simp add: riscos_latin1_built encode_def encode_readers_simps encode_replace_def
        riscos_latin1_encode_ascii riscos_latin1_encode_4E00)

subsection \<open>C4: the round trip of a mapped byte\<close>

text \<open>
  C4: over a table of 256 entries, strict decoding of a byte \<open>b\<close> whose entry is not
  U+FFFD gives its character, and strict encoding of that character gives one byte \<open>w\<close>:
  the highest byte value that decodes to the same character. So \<open>w\<close> is \<open>b\<close> again
  exactly when no higher byte value decodes to that character; where two byte values
  collide, only the winner of the collision comes back.
\<close>

theorem C4_round_trip:
  assumes "RISCOSAlphabet_init bd a n be chs = Inr self"
    and "length (bd be) = 256"
    and "scalar (decode_table self ! unat b) \<noteq> FFFD"
  shows "decode self [b] (Some ''strict'') = Inr ([scalar (decode_table self ! unat b)], 1) \<and>
         (\<exists>w. encode self [scalar (decode_table self ! unat b)] (Some ''strict'')
                = Inr ([w], 1) \<and>
              scalar (decode_table self ! unat w) = scalar (decode_table self ! unat b) \<and>
              (\<forall>k. unat w < k \<and> k < 256 \<longrightarrow>
                   scalar (decode_table self ! k) \<noteq> scalar (decode_table self ! unat b)) \<and>
              (w = b \<longleftrightarrow>
                 (\<forall>k. unat b < k \<and> k < 256 \<longrightarrow>
                        scalar (decode_table self ! k) \<noteq> scalar (decode_table self ! unat b))))"
proof -
  let ?dt = "decode_table self"
  let ?c = "scalar (?dt ! unat b)"
  have len: "length ?dt = 256"
    using init_fields(3) [OF assms(1)] assms(2) by simp
  have enc: "encode_table self = make_encode_table ?dt"
    by (rule init_fields(4) [OF assms(1)])
  have b: "unat b < length ?dt" by (simp add: len unat_byte_less)
  from assms(3) have "?dt ! unat b \<noteq> FFFD_literal" by auto
  then have dec: "decode self [b] (Some ''strict'') = Inr ([?c], 1)"
    using b by (simp add: decode_def decode_readers_simps decode_strict_def table_get_def)
  from b have "?dt ! unat b \<in> set ?dt" by (rule nth_mem)
  then have "?c \<in> scalar ` set ?dt" by (rule imageI)
  then have "?c \<in> dom (make_encode_table ?dt)"
    by (simp only: dom_make_encode_table)
  then obtain m where m: "make_encode_table ?dt ?c = Some m" by blast
  then have m1: "m < 256" and m2: "scalar (?dt ! m) = ?c"
    and m3: "\<forall>j. m < j \<and> j < 256 \<longrightarrow> scalar (?dt ! j) \<noteq> ?c"
    by (simp_all add: make_encode_table_Some len)
  define w :: byte where "w = word_of_int (int m)"
  have uw: "unat w = m" unfolding w_def using m1 by (rule byte_of_index)
  have e: "encode self [?c] (Some ''strict'') = Inr ([w], 1)"
    using m m1 by (simp add: encode_def encode_readers_simps encode_strict_def enc w_def)
  have iff: "w = b \<longleftrightarrow> (\<forall>k. unat b < k \<and> k < 256 \<longrightarrow> scalar (?dt ! k) \<noteq> ?c)"
  proof
    assume "w = b"
    then have "m = unat b" using uw by (simp only:)
    with m3 show "\<forall>k. unat b < k \<and> k < 256 \<longrightarrow> scalar (?dt ! k) \<noteq> ?c" by (simp only:)
  next
    assume top: "\<forall>k. unat b < k \<and> k < 256 \<longrightarrow> scalar (?dt ! k) \<noteq> ?c"
    have "\<not> unat b < m"
    proof
      assume "unat b < m"
      with m1 have "unat b < m \<and> m < 256" by simp
      moreover from top have "unat b < m \<and> m < 256 \<longrightarrow> scalar (?dt ! m) \<noteq> ?c" by (rule spec)
      ultimately have "scalar (?dt ! m) \<noteq> ?c" by (rule rev_mp)
      with m2 show False by (rule notE [rotated])
    qed
    moreover have "\<not> m < unat b"
    proof
      assume "m < unat b"
      moreover have "unat b < 256" by (rule unat_byte_less)
      ultimately have "m < unat b \<and> unat b < 256" by simp
      moreover from m3 have "m < unat b \<and> unat b < 256 \<longrightarrow> scalar (?dt ! unat b) \<noteq> ?c"
        by (rule spec)
      ultimately have "scalar (?dt ! unat b) \<noteq> ?c" by (rule rev_mp)
      then show False by (rule notE) (rule refl)
    qed
    ultimately have "unat w = unat b" using uw by linarith
    then show "w = b" by (simp only: word_unat_eq_iff)
  qed
  from m2 have w2: "scalar (?dt ! unat w) = ?c" by (simp only: uw)
  from m3 have w3: "\<forall>k. unat w < k \<and> k < 256 \<longrightarrow> scalar (?dt ! k) \<noteq> ?c" by (simp only: uw)
  from e w2 w3 iff have
    "encode self [?c] (Some ''strict'') = Inr ([w], 1) \<and> scalar (?dt ! unat w) = ?c \<and>
     (\<forall>k. unat w < k \<and> k < 256 \<longrightarrow> scalar (?dt ! k) \<noteq> ?c) \<and>
     (w = b \<longleftrightarrow> (\<forall>k. unat b < k \<and> k < 256 \<longrightarrow> scalar (?dt ! k) \<noteq> ?c))"
    by (intro conjI)
  then have "\<exists>w. encode self [?c] (Some ''strict'') = Inr ([w], 1) \<and> scalar (?dt ! unat w) = ?c \<and>
     (\<forall>k. unat w < k \<and> k < 256 \<longrightarrow> scalar (?dt ! k) \<noteq> ?c) \<and>
     (w = b \<longleftrightarrow> (\<forall>k. unat b < k \<and> k < 256 \<longrightarrow> scalar (?dt ! k) \<noteq> ?c))" ..
  with dec show ?thesis by (rule conjI)
qed

theorem C4_round_trip_witness:
  "RISCOSAlphabet_init latin1_codecs 110 ''riscos-welsh'' ''iso-8859-1''
     (Some [c1_changes, welsh_changes]) = Inr riscos_welsh \<and>
   length (latin1_codecs ''iso-8859-1'') = 256 \<and>
   scalar (decode_table riscos_welsh ! unat (0xD0 :: byte)) \<noteq> FFFD \<and>
   scalar (decode_table riscos_welsh ! unat (0x81 :: byte)) \<noteq> FFFD \<and>
   decode riscos_welsh [0xD0] (Some ''strict'') = Inr ([0x174], 1) \<and>
   decode riscos_welsh [0x81] (Some ''strict'') = Inr ([0x174], 1) \<and>
   encode riscos_welsh [0x174] (Some ''strict'') = Inr ([0xD0], 1)"
proof -
  have h2: "length (latin1_codecs ''iso-8859-1'') = 256"
    by (simp add: latin1_codecs_def)
  have u1: "unat (0xD0 :: byte) = 0xD0" and u2: "unat (0x81 :: byte) = 0x81"
    by simp_all
  have s1: "scalar (decode_table riscos_welsh ! unat (0xD0 :: byte)) = 0x174"
    by (simp only: u1 riscos_welsh_D0 scalar.simps)
  have s2: "scalar (decode_table riscos_welsh ! unat (0x81 :: byte)) = 0x174"
    by (simp only: u2 riscos_welsh_81 scalar.simps)
  have h3: "scalar (decode_table riscos_welsh ! unat (0xD0 :: byte)) \<noteq> FFFD"
    by (simp only: s1) (simp add: FFFD_def)
  have h3': "scalar (decode_table riscos_welsh ! unat (0x81 :: byte)) \<noteq> FFFD"
    by (simp only: s2) (simp add: FFFD_def)
  from C4_round_trip [OF riscos_welsh_built h2 h3]
  have "decode riscos_welsh [0xD0] (Some ''strict'') =
          Inr ([scalar (decode_table riscos_welsh ! unat (0xD0 :: byte))], 1)" ..
  then have d1: "decode riscos_welsh [0xD0] (Some ''strict'') = Inr ([0x174], 1)"
    by (simp only: s1)
  from C4_round_trip [OF riscos_welsh_built h2 h3']
  have "decode riscos_welsh [0x81] (Some ''strict'') =
          Inr ([scalar (decode_table riscos_welsh ! unat (0x81 :: byte))], 1)" ..
  then have d2: "decode riscos_welsh [0x81] (Some ''strict'') = Inr ([0x174], 1)"
    by (simp only: s2)
  have e: "encode riscos_welsh [0x174] (Some ''strict'') = Inr ([0xD0], 1)"
    by (simp add: encode_def encode_readers_simps encode_strict_def riscos_welsh_encode_174)
  from riscos_welsh_built h2 h3 h3' d1 d2 e show ?thesis by (intro conjI)
qed

subsection \<open>C5: the highest byte wins a collision\<close>

text \<open>
  C5: when two distinct byte values decode to the same character, the encode table maps
  that character to one byte, the highest byte value that decodes to it.
\<close>

theorem C5_collision_highest_byte:
  assumes "RISCOSAlphabet_init bd a n b chs = Inr self"
    and "i < length (decode_table self)" and "j < length (decode_table self)" and "i \<noteq> j"
    and "scalar (decode_table self ! i) = scalar (decode_table self ! j)"
  shows "encode_table self (scalar (decode_table self ! i)) =
           Some (Max {k. k < length (decode_table self) \<and>
                         scalar (decode_table self ! k) = scalar (decode_table self ! i)})"
proof -
  have "decode_table self ! i \<in> set (decode_table self)"
    using assms(2) by (rule nth_mem)
  then have "scalar (decode_table self ! i) \<in> scalar ` set (decode_table self)"
    by (rule imageI)
  then have "make_encode_table (decode_table self) (scalar (decode_table self ! i)) =
           Some (Max {k. k < length (decode_table self) \<and>
                         scalar (decode_table self ! k) = scalar (decode_table self ! i)})"
    by (rule make_encode_table_Max)
  then show ?thesis by (simp only: init_fields(4) [OF assms(1)])
qed

text \<open>
  In riscos-welsh the bytes 0x81 (from \<open>c1_changes\<close>) and 0xD0 (from \<open>welsh_changes\<close>)
  both decode to U+0174; the encode table maps U+0174 to 0xD0.
\<close>

theorem C5_collision_highest_byte_witness:
  "RISCOSAlphabet_init latin1_codecs 110 ''riscos-welsh'' ''iso-8859-1''
     (Some [c1_changes, welsh_changes]) = Inr riscos_welsh \<and>
   scalar (decode_table riscos_welsh ! 0x81) = 0x174 \<and>
   scalar (decode_table riscos_welsh ! 0xD0) = 0x174 \<and>
   encode_table riscos_welsh 0x174 = Some 0xD0 \<and>
   Max {k. k < length (decode_table riscos_welsh) \<and>
           scalar (decode_table riscos_welsh ! k) = scalar (decode_table riscos_welsh ! 0x81)}
     = 0xD0"
proof -
  have i: "(0x81::nat) < length (decode_table riscos_welsh)"
    and j: "(0xD0::nat) < length (decode_table riscos_welsh)"
    by (simp_all add: riscos_welsh_length)
  have ne: "(0x81::nat) \<noteq> 0xD0" by simp
  have s1: "scalar (decode_table riscos_welsh ! 0x81) = 0x174"
    by (simp only: riscos_welsh_81 scalar.simps)
  have s2: "scalar (decode_table riscos_welsh ! 0xD0) = 0x174"
    by (simp only: riscos_welsh_D0 scalar.simps)
  have same: "scalar (decode_table riscos_welsh ! 0x81) = scalar (decode_table riscos_welsh ! 0xD0)"
    by (simp only: s1 s2)
  have "encode_table riscos_welsh (scalar (decode_table riscos_welsh ! 0x81)) =
          Some (Max {k. k < length (decode_table riscos_welsh) \<and>
                        scalar (decode_table riscos_welsh ! k) =
                          scalar (decode_table riscos_welsh ! 0x81)})"
    using riscos_welsh_built i j ne same by (rule C5_collision_highest_byte)
  then have mx: "encode_table riscos_welsh 0x174 =
          Some (Max {k. k < length (decode_table riscos_welsh) \<and>
                        scalar (decode_table riscos_welsh ! k) =
                          scalar (decode_table riscos_welsh ! 0x81)})"
    by (subst (asm) s1)
  from mx [symmetric] riscos_welsh_encode_174
  have "Some (Max {k. k < length (decode_table riscos_welsh) \<and>
                        scalar (decode_table riscos_welsh ! k) =
                          scalar (decode_table riscos_welsh ! 0x81)})
               = Some (0xD0::nat)"
    by (rule trans)
  then have "Max {k. k < length (decode_table riscos_welsh) \<and>
                scalar (decode_table riscos_welsh ! k) =
                  scalar (decode_table riscos_welsh ! 0x81)} = 0xD0"
    by (simp only: option.inject)
  with riscos_welsh_built s1 s2 riscos_welsh_encode_174
  show ?thesis by (intro conjI)
qed

subsection \<open>C6: a later layer overwrites an earlier one\<close>

text \<open>
  C6: building with the layers \<open>[A, B]\<close>, whose byte values all lie inside the base
  table, returns an object, and for a byte that \<open>B\<close> defines (whether or not \<open>A\<close> defines
  it too) the decode table holds \<open>B\<close>'s value. A dictionary has one item for each key,
  hence the distinct keys of \<open>B\<close>.
\<close>

theorem C6_later_layer_wins:
  assumes "\<forall>c\<in>fst ` (set A \<union> set B). c < length (bd b)"
    and "distinct (map fst B)" and "(k, v) \<in> set B"
  shows "\<exists>self. RISCOSAlphabet_init bd a n b (Some [A, B]) = Inr self \<and>
                decode_table self ! k = v"
proof -
  have ch: "concat (changes_or (Some [A, B])) = A @ B"
    by (simp add: changes_or_def)
  from assms(1) have "\<forall>c\<in>fst ` set (concat (changes_or (Some [A, B]))). c < length (bd b)"
    by (simp only: ch set_append)
  then have "\<exists>self. RISCOSAlphabet_init bd a n b (Some [A, B]) = Inr self"
    by (rule init_ok)
  then obtain self where self: "RISCOSAlphabet_init bd a n b (Some [A, B]) = Inr self" ..
  from assms(3) have "k \<in> fst ` (set A \<union> set B)" by force
  with assms(1) have k: "k < length (bd b)" by blast
  from assms(2) have "distinct (map fst (rev B))"
    by (simp add: rev_map [symmetric])
  moreover from assms(3) have "(k, v) \<in> set (rev B)" by simp
  ultimately have "map_of (rev B) k = Some v" by (rule map_of_is_SomeI)
  then have "map_of (rev (A @ B)) k = Some v"
    by (simp add: map_add_def)
  with init_nth [OF self k] have "decode_table self ! k = v"
    by (simp only: ch option.case)
  with self show ?thesis by blast
qed

theorem C6_later_layer_wins_witness:
  "distinct (map fst [(0x80::nat, Str 0x41)]) \<and>
   (0x80, Str 0x20AC) \<in> set c1_changes \<and> (0x80, Str 0x41) \<in> set [(0x80::nat, Str 0x41)] \<and>
   (\<exists>self. RISCOSAlphabet_init latin1_codecs 101 ''riscos-latin1'' ''iso-8859-1''
              (Some [c1_changes, [(0x80, Str 0x41)]]) = Inr self \<and>
           decode_table self ! 0x80 = Str 0x41)"
proof -
  have h1: "\<forall>c\<in>fst ` (set c1_changes \<union> set [(0x80, Str 0x41)]).
              c < length (latin1_codecs ''iso-8859-1'')"
    using c1_changes_keys by (fastforce simp: latin1_codecs_def)
  have h2: "distinct (map fst [(0x80::nat, Str 0x41)])" by simp
  have h3: "(0x80, Str 0x41) \<in> set [(0x80::nat, Str 0x41)]" by simp
  have h4: "(0x80, Str 0x20AC) \<in> set c1_changes" by (simp add: c1_changes_def)
  from C6_later_layer_wins [where bd = latin1_codecs and b = "''iso-8859-1''"
         and A = c1_changes and B = "[(0x80, Str 0x41)]" and k = "0x80" and v = "Str 0x41"
         and a = 101 and n = "''riscos-latin1''", OF h1 h2 h3] h2 h3 h4
  show ?thesis by (intro conjI)
qed

subsection \<open>C8: looking riscos-latin1 up by name and by number\<close>

text \<open>
  C8: once the module has built its list of alphabets, the search function returns for the
  name \<open>riscos-latin1\<close> and for the name \<open>riscos-alphabet-101\<close> the same codec: the one
  of the object built as alphabet 101. The list is built whenever every base table has 256
  entries (lemma \<open>riscos_alphabets_ok\<close>).
\<close>

theorem C8_dual_lookup:
  assumes "riscos_alphabets bd = Inr alphabets"
  shows "\<exists>self.
           RISCOSAlphabet_init bd 101 ''riscos-latin1'' ''iso-8859-1'' (Some [c1_changes]) = Inr self \<and>
           custom_search_function alphabets ''riscos-latin1'' = Inr (Some (CodecInfo self)) \<and>
           custom_search_function alphabets ''riscos-alphabet-101'' = Inr (Some (CodecInfo self))"
proof -
  from riscos_alphabets_InrD [OF assms] obtain self rest where
    alphabets: "alphabets = Table self # rest"
    and self: "RISCOSAlphabet_init bd 101 ''riscos-latin1'' ''iso-8859-1'' (Some [c1_changes]) = Inr self"
    and names: "map name_of rest =
             [''riscos-latin2'', ''riscos-latin3'', ''riscos-latin4'', ''riscos-cyrillic'',
              ''riscos-arabic'', ''riscos-greek'', ''riscos-hebrew'', ''riscos-latin5'',
              ''riscos-welsh'', ''riscos-utf8'', ''riscos-latin9'', ''riscos-latin6'',
              ''riscos-latin7'', ''riscos-latin8'', ''riscos-latin10'']"
    by (elim exE conjE) (rule that)
  have nm: "name self = ''riscos-latin1''" and num: "alphabet self = 101"
    using init_fields(1,2) [OF self] by simp_all
  have "''riscos-latin1'' \<notin> set (map name_of rest)"
    by (simp only: names) simp
  then have "riscos_alphabets_map alphabets ''riscos-latin1'' = Some (CodecInfo self)"
    by (simp add: riscos_alphabets_map_def alphabets alphabets_map_other_names nm
          del: set_map)
  then have by_name: "custom_search_function alphabets ''riscos-latin1'' = Inr (Some (CodecInfo self))"
    by (simp add: custom_search_function_def search_name_101)
  have "find (\<lambda>encoding. alphabet_of encoding = 101) alphabets = Some (Table self)"
    by (simp add: alphabets num)
  then have by_number:
    "custom_search_function alphabets ''riscos-alphabet-101'' = Inr (Some (CodecInfo self))"
    by (simp add: custom_search_function_def search_name_101)
  from self by_name by_number show ?thesis by (intro exI [of _ self] conjI)
qed

theorem C8_dual_lookup_witness:
  "riscos_alphabets latin1_codecs = Inr registered \<and>
   custom_search_function registered ''riscos-latin1'' = Inr (Some (CodecInfo riscos_latin1)) \<and>
   custom_search_function registered ''riscos-alphabet-101'' = Inr (Some (CodecInfo riscos_latin1))"
proof -
  from C8_dual_lookup [OF registered_built] obtain self where
    self: "RISCOSAlphabet_init latin1_codecs 101 ''riscos-latin1'' ''iso-8859-1''
             (Some [c1_changes]) = Inr self"
    and by_name: "custom_search_function registered ''riscos-latin1'' = Inr (Some (CodecInfo self))"
    and by_number:
      "custom_search_function registered ''riscos-alphabet-101'' = Inr (Some (CodecInfo self))"
    by (elim exE conjE) (rule that)
  from self riscos_latin1_built have "Inr self = (Inr riscos_latin1 :: error + RISCOSAlphabet)"
    by (simp only:)
  then have "self = riscos_latin1" by (simp only: sum.inject)
  with by_name by_number registered_built show ?thesis by (simp only: simp_thms)
qed

subsection \<open>C10: the second component is the length of the input\<close>

text \<open>
  C10: whenever \<open>encode\<close> or \<open>decode\<close> returns, under any policy, the second component of
  the pair is the length of the whole input. Calls that return exist: a strict encoding of
  two characters, and a decoding under \<open>ignore\<close> whose text is shorter than its input.
\<close>

theorem C10_consumed_length:
  "(encode self text errors = Inr (bs, n) \<longrightarrow> n = length text) \<and>
   (decode self binary errors' = Inr (s, m) \<longrightarrow> m = length binary)"
  by (auto simp: encode_def decode_def split: option.splits sum.splits)

theorem C10_consumed_length_witness:
  "encode riscos_latin1 [0x41, 0x42] (Some ''strict'') = Inr ([0x41, 0x42], 2) \<and>
   decode riscos_latin1 [0x41, 0x87, 0x42] (Some ''ignore'') = Inr ([0x41, 0x42], 3) \<and>
   (2::nat) = length [0x41 :: uchar, 0x42] \<and> (3::nat) = length [0x41 :: byte, 0x87, 0x42]"
proof -
  have e: "encode riscos_latin1 [0x41, 0x42] (Some ''strict'') = Inr ([0x41, 0x42], 2)"
    by (simp add: encode_def encode_readers_simps encode_strict_def riscos_latin1_encode_ascii)
  have d: "decode riscos_latin1 [0x41, 0x87, 0x42] (Some ''ignore'') = Inr ([0x41, 0x42], 3)"
    by (simp add: decode_def decode_readers_simps decode_ignore_def table_get_def
          riscos_latin1_fields riscos_latin1_87 riscos_latin1_ascii FFFD_def)
  from C10_consumed_length [of riscos_latin1 "[0x41, 0x42]" "Some ''strict''" "[0x41, 0x42]" 2
         "[0x41, 0x87, 0x42]" "Some ''ignore''" "[0x41, 0x42]" 3] e d
  show ?thesis by (simp only: simp_thms)
qed

end
